theory Spec2Isabelle
  imports Main "HOL-Library.Word"
begin

unbundle bit_operations_syntax

section \<open>Requests and JavaScript values\<close>

text \<open>
  A JavaScript string is a list of characters. The code looks at ASCII letters, digits
  and punctuation only; a character outside ASCII belongs to none of the character
  classes of its regular expressions, in JavaScript as in the definitions below.
  Times are milliseconds of \<open>Date.now()\<close>, natural numbers.
\<close>

text \<open>
  A \<open>NextRequest\<close> as far as the handlers read it: \<open>request.method\<close>, the headers
  (\<open>request.headers.get(name)\<close>), the cookies (\<open>request.cookies.get(name)?.value\<close>)
  and the raw body (\<open>request.text()\<close>). Headers and cookies are name/value lists; a
  name that is not listed reads as \<open>null\<close>/\<open>undefined\<close>, here \<open>None\<close>.
\<close>

record NextRequest =
  req_method :: string
  headers :: "(string \<times> string) list"
  cookies :: "(string \<times> string) list"
  rawBody :: string

definition headers_get :: "NextRequest \<Rightarrow> string \<Rightarrow> string option" where
  "headers_get request name = map_of (headers request) name"

definition cookies_get :: "NextRequest \<Rightarrow> string \<Rightarrow> string option" where
  "cookies_get request name = map_of (cookies request) name"

text \<open>JavaScript truthiness of \<open>string | null | undefined\<close>: absent and empty are falsy.\<close>

fun truthy :: "string option \<Rightarrow> bool" where
  "truthy None = False"
| "truthy (Some s) = (s \<noteq> [])"

text \<open>\<open>a || 'literal'\<close> on an optional string.\<close>

definition js_or_default :: "string option \<Rightarrow> string \<Rightarrow> string" where
  "js_or_default a d = (if truthy a then the a else d)"

section \<open>Double-submit CSRF validation (part 013)\<close>

text \<open>\<open>s.charCodeAt(i)\<close> for an index inside the string.\<close>

definition charCodeAt :: "string \<Rightarrow> nat \<Rightarrow> nat" where
  "charCodeAt s i = of_char (s ! i)"

text \<open>
  The loop of \<open>timingSafeEqual\<close>: \<open>result |= a.charCodeAt(i) ^ b.charCodeAt(i)\<close>
  for \<open>i = 0, ..., a.length - 1\<close>, starting from \<open>result = 0\<close>. It only runs when the
  lengths are equal, so every index is inside both strings. Character codes are
  not negative and stay below \<open>2^16\<close>, so the 32-bit bitwise operators of
  JavaScript never truncate or change sign here.
\<close>

definition timingSafeEqual_loop :: "string \<Rightarrow> string \<Rightarrow> nat" where
  "timingSafeEqual_loop a b =
     fold (\<lambda>i result. result OR (charCodeAt a i XOR charCodeAt b i)) [0..<length a] 0"

definition timingSafeEqual :: "string \<Rightarrow> string \<Rightarrow> bool" where
  "timingSafeEqual a b =
     (if length a \<noteq> length b then False else timingSafeEqual_loop a b = 0)"

definition validateDoubleSubmitCSRF :: "NextRequest \<Rightarrow> bool" where
  "validateDoubleSubmitCSRF request =
     (if req_method request = ''GET'' then True
      else
        let csrfToken = headers_get request ''x-csrf-token'';
            csrfCookie = cookies_get request ''csrf-token''
        in if \<not> truthy csrfToken \<or> \<not> truthy csrfCookie then False
           else timingSafeEqual (the csrfToken) (the csrfCookie))"

section \<open>Webhook signature (lib/security.ts)\<close>

type_synonym byte = "8 word"

text \<open>Character classes of the regular expressions, by character code.\<close>

definition isDigit :: "char \<Rightarrow> bool" where
  "isDigit c = (48 \<le> (of_char c :: nat) \<and> (of_char c :: nat) \<le> 57)"

definition isUpper :: "char \<Rightarrow> bool" where
  "isUpper c = (65 \<le> (of_char c :: nat) \<and> (of_char c :: nat) \<le> 90)"

definition isLower :: "char \<Rightarrow> bool" where
  "isLower c = (97 \<le> (of_char c :: nat) \<and> (of_char c :: nat) \<le> 122)"

text \<open>\<open>[a-f0-9]\<close> under the \<open>i\<close> flag.\<close>

definition isHexDigit :: "char \<Rightarrow> bool" where
  "isHexDigit c =
     (isDigit c \<or> (97 \<le> (of_char c :: nat) \<and> (of_char c :: nat) \<le> 102)
                \<or> (65 \<le> (of_char c :: nat) \<and> (of_char c :: nat) \<le> 70))"

definition hexValue :: "char \<Rightarrow> nat option" where
  "hexValue c =
     (let n = (of_char c :: nat) in
      if 48 \<le> n \<and> n \<le> 57 then Some (n - 48)
      else if 97 \<le> n \<and> n \<le> 102 then Some (n - 87)
      else if 65 \<le> n \<and> n \<le> 70 then Some (n - 55)
      else None)"

text \<open>
  \<open>Buffer.from(s, 'hex')\<close>: two hexadecimal digits give one byte; decoding stops at
  the first pair that is not hexadecimal.
\<close>

fun hexDecode :: "string \<Rightarrow> byte list" where
  "hexDecode (a # b # rest) =
     (case hexValue a of
        None \<Rightarrow> []
      | Some h \<Rightarrow>
          (case hexValue b of
             None \<Rightarrow> []
           | Some l \<Rightarrow> word_of_nat (16 * h + l) # hexDecode rest))"
| "hexDecode [a] = []"
| "hexDecode [] = []"

text \<open>\<open>digest('hex')\<close>: two lowercase hexadecimal digits per byte.\<close>

definition hexDigit :: "nat \<Rightarrow> char" where
  "hexDigit n = (if n < 10 then char_of (48 + n) else char_of (87 + n))"

fun hexEncode :: "byte list \<Rightarrow> string" where
  "hexEncode [] = []"
| "hexEncode (b # bs) = hexDigit (unat b div 16) # hexDigit (unat b mod 16) # hexEncode bs"

text \<open>\<open>s.startsWith(p)\<close>.\<close>

definition startsWith :: "string \<Rightarrow> string \<Rightarrow> bool" where
  "startsWith s p = (take (length p) s = p)"

text \<open>
  \<open>crypto.timingSafeEqual(a, b)\<close> of Node: it throws when the two buffers differ in
  length (\<open>None\<close>), and compares the bytes otherwise.
\<close>

definition crypto_timingSafeEqual :: "byte list \<Rightarrow> byte list \<Rightarrow> bool option" where
  "crypto_timingSafeEqual a b = (if length a \<noteq> length b then None else Some (a = b))"

text \<open>
  \<open>verifyWebhookSignature\<close>. The keyed hash of Node's crypto module,
  \<open>createHmac('sha256', secret).update(payload, 'utf8')\<close>, is the parameter
  \<open>hmac_sha256 secret payload\<close>, the bytes of the digest. The parameter types are
  \<open>string\<close>, \<open>string | null\<close> and \<open>string\<close>, so the \<open>typeof\<close> tests add nothing to
  the truthiness tests. The \<open>try\<close>/\<open>catch\<close> turns an exception into \<open>false\<close>.
\<close>

definition verifyWebhookSignature ::
  "(string \<Rightarrow> string \<Rightarrow> byte list) \<Rightarrow> string \<Rightarrow> string option \<Rightarrow> string \<Rightarrow> bool" where
  "verifyWebhookSignature hmac_sha256 payload signature secret =
     (if payload = [] then False
      else if \<not> truthy signature then False
      else if secret = [] then False
      else if \<not> startsWith (the signature) ''sha256='' then False
      else
        let signatureHash = drop 7 (the signature) in
        if \<not> (length signatureHash = 64 \<and> list_all isHexDigit signatureHash) then False
        else
          let expectedSignature = hexEncode (hmac_sha256 secret payload) in
          (case crypto_timingSafeEqual (hexDecode signatureHash) (hexDecode expectedSignature) of
             None \<Rightarrow> False
           | Some isValid \<Rightarrow> isValid))"

text \<open>
  \<open>verifyWebhookSignatureDetailed\<close> makes the same tests in the same order and
  reports the failed one; the metadata (payload length, signature text, timestamp) is
  logging only and left out.
\<close>

datatype SignatureError =
    InvalidPayload \<comment> \<open>payload is required and must be a string\<close>
  | InvalidSignature \<comment> \<open>signature is required and must be a string\<close>
  | InvalidSecret \<comment> \<open>secret is required and must be a string\<close>
  | InvalidSignatureFormat \<comment> \<open>must start with sha256=\<close>
  | InvalidSignatureHashFormat \<comment> \<open>must be 64-character hex string\<close>
  | SignatureVerificationError

record SignatureResult =
  isValid :: bool
  error :: "SignatureError option"

definition verifyWebhookSignatureDetailed ::
  "(string \<Rightarrow> string \<Rightarrow> byte list) \<Rightarrow> string \<Rightarrow> string option \<Rightarrow> string \<Rightarrow> SignatureResult" where
  "verifyWebhookSignatureDetailed hmac_sha256 payload signature secret =
     (if payload = [] then
        \<lparr>isValid = False, error = Some InvalidPayload\<rparr>
      else if \<not> truthy signature then
        \<lparr>isValid = False, error = Some InvalidSignature\<rparr>
      else if secret = [] then
        \<lparr>isValid = False, error = Some InvalidSecret\<rparr>
      else if \<not> startsWith (the signature) ''sha256='' then
        \<lparr>isValid = False, error = Some InvalidSignatureFormat\<rparr>
      else
        let signatureHash = drop 7 (the signature) in
        if \<not> (length signatureHash = 64 \<and> list_all isHexDigit signatureHash) then
          \<lparr>isValid = False, error = Some InvalidSignatureHashFormat\<rparr>
        else
          let expectedSignature = hexEncode (hmac_sha256 secret payload) in
          (case crypto_timingSafeEqual (hexDecode signatureHash) (hexDecode expectedSignature) of
             None \<Rightarrow> \<lparr>isValid = False, error = Some SignatureVerificationError\<rparr>
           | Some v \<Rightarrow> \<lparr>isValid = v, error = None\<rparr>))"

section \<open>Verification codes in message text (lib/whatsapp.ts, lib/security.ts)\<close>

text \<open>
  The classes of the regular expressions: \<open>[A-Z0-9]\<close> under the \<open>i\<close> flag is
  \<open>isAlnum\<close>, \<open>[A-Z]\<close> under the \<open>i\<close> flag is \<open>isLetter\<close>, and the word characters
  that decide \<open>\b\<close> are the letters, the digits and the underscore.
\<close>

definition isLetter :: "char \<Rightarrow> bool" where
  "isLetter c = (isUpper c \<or> isLower c)"

definition isAlnum :: "char \<Rightarrow> bool" where
  "isAlnum c = (isLetter c \<or> isDigit c)"

definition isWordChar :: "char \<Rightarrow> bool" where
  "isWordChar c = (isAlnum c \<or> c = CHR ''_'')"

text \<open>
  \<open>\b\<close> at a position: exactly one of the character before the position and the
  character at the position is a word character. \<open>prev\<close> is the character before
  (\<open>None\<close> at the start of the input), \<open>rest\<close> the input from the position on.
\<close>

definition wordBefore :: "char option \<Rightarrow> bool" where
  "wordBefore prev = (case prev of None \<Rightarrow> False | Some c \<Rightarrow> isWordChar c)"

definition wordAt :: "string \<Rightarrow> bool" where
  "wordAt rest = (case rest of [] \<Rightarrow> False | c # _ \<Rightarrow> isWordChar c)"

definition wordBoundary :: "char option \<Rightarrow> string \<Rightarrow> bool" where
  "wordBoundary prev rest = (wordBefore prev \<noteq> wordAt rest)"

text \<open>One attempt of \<open>/\b([A-Z0-9]{6})\b/i\<close> at a position.\<close>

definition matchHere :: "char option \<Rightarrow> string \<Rightarrow> bool" where
  "matchHere prev rest =
     (wordBoundary prev rest \<and> 6 \<le> length rest \<and> list_all isAlnum (take 6 rest)
      \<and> wordBoundary (Some (rest ! 5)) (drop 6 rest))"

text \<open>
  \<open>message.match(/.../gi)\<close>: the matches from left to right. After a match the
  search goes on behind it; where the attempt fails it moves one character on. At the
  end of the input nothing is left to match six characters.
\<close>

fun matchAll :: "char option \<Rightarrow> string \<Rightarrow> string list" where
  "matchAll prev [] = []"
| "matchAll prev (c # cs) =
     (if matchHere prev (c # cs)
      then take 6 (c # cs) # matchAll (Some ((c # cs) ! 5)) (drop 5 cs)
      else matchAll (Some c) cs)"

text \<open>
  \<open>toUpperCase\<close> on a match. A match holds ASCII letters and digits only, where
  \<open>toUpperCase\<close> changes exactly the letters a to z.
\<close>

definition toUpper :: "char \<Rightarrow> char" where
  "toUpper c = (if isLower c then char_of ((of_char c :: nat) - 32) else c)"

definition toUpperCase :: "string \<Rightarrow> string" where
  "toUpperCase s = map toUpper s"

definition hasLetterNumber :: "string \<Rightarrow> bool" where
  "hasLetterNumber m = (list_ex isLetter m \<and> list_ex isDigit m)"

definition extractVerificationCode :: "string \<Rightarrow> string option" where
  "extractVerificationCode message =
     (let matches = matchAll None message in
      if matches = [] then None
      else (case find hasLetterNumber matches of
              None \<Rightarrow> None
            | Some m \<Rightarrow> Some (toUpperCase m)))"

text \<open>
  \<open>validateVerificationCode\<close>; a thrown \<open>Error\<close> is \<open>Inl\<close> of its message. The
  pattern \<open>/^[A-Z0-9]{6}$/\<close> has no flag, so it is case sensitive and \<open>$\<close> is the end
  of the input.
\<close>

definition validateVerificationCode :: "string \<Rightarrow> string + string" where
  "validateVerificationCode code =
     (if code = [] then Inl ''Verification code is required''
      else if length code \<noteq> 6 then Inl ''Verification code must be 6 characters''
      else if \<not> (length code = 6 \<and> list_all (\<lambda>c. isUpper c \<or> isDigit c) code)
        then Inl ''Invalid verification code format''
      else
        let hasLetter = list_ex isUpper code; hasNumber = list_ex isDigit code in
        if \<not> hasLetter \<or> \<not> hasNumber
        then Inl ''Verification code must contain both letters and numbers''
        else Inr (toUpperCase code))"

text \<open>
  For the comparison with the specification's wording. The maximal runs of word
  characters of a text, from left to right:
\<close>

function wordRuns :: "string \<Rightarrow> string list" where
  "wordRuns [] = []"
| "wordRuns (c # cs) =
     (if isWordChar c then takeWhile isWordChar (c # cs) # wordRuns (dropWhile isWordChar cs)
      else wordRuns cs)"
  by pat_completeness auto
termination
  by (relation "measure length") (auto simp: less_Suc_eq_le length_dropWhile_le)

text \<open>and the whitespace-delimited runs (\<open>\s\<close>: tab, line feed, vertical tab, form
  feed, carriage return, space, no-break space):\<close>

definition isSpace :: "char \<Rightarrow> bool" where
  "isSpace c = ((9 \<le> (of_char c :: nat) \<and> (of_char c :: nat) \<le> 13) \<or> (of_char c :: nat) = 32
                \<or> (of_char c :: nat) = 160)"

function whitespaceRuns :: "string \<Rightarrow> string list" where
  "whitespaceRuns [] = []"
| "whitespaceRuns (c # cs) =
     (if isSpace c then whitespaceRuns cs
      else takeWhile (\<lambda>x. \<not> isSpace x) (c # cs) # whitespaceRuns (dropWhile (\<lambda>x. \<not> isSpace x) cs))"
  by pat_completeness auto
termination
  by (relation "measure length") (auto simp: less_Suc_eq_le length_dropWhile_le)

text \<open>A run of exactly six letters and digits, and one that holds both a letter and a
  digit.\<close>

definition isSixAlnum :: "string \<Rightarrow> bool" where
  "isSixAlnum w = (length w = 6 \<and> list_all isAlnum w)"

definition isCodeRun :: "string \<Rightarrow> bool" where
  "isCodeRun w = (length w = 6 \<and> list_all isAlnum w \<and> hasLetterNumber w)"

text \<open>The specification's wording: the first whitespace-delimited such run, uppercased.\<close>

definition firstWhitespaceDelimitedCode :: "string \<Rightarrow> string option" where
  "firstWhitespaceDelimitedCode message =
     map_option toUpperCase (find isCodeRun (whitespaceRuns message))"

text \<open>The same with runs delimited by word boundaries.\<close>

definition firstWordDelimitedCode :: "string \<Rightarrow> string option" where
  "firstWordDelimitedCode message =
     map_option toUpperCase (find isCodeRun (wordRuns message))"

section \<open>Code generation (part 014)\<close>

definition alphabet :: string where
  "alphabet = ''ABCDEFGHIJKLMNOPQRSTUVWXYZ0123456789''"

text \<open>
  \<open>customAlphabet(alphabet, 6)\<close> of the nanoid package draws random bytes, masks each
  with \<open>63\<close> (the least \<open>2^k - 1\<close> that reaches the last index \<open>35\<close>), appends
  \<open>alphabet[byte & 63] || ''\<close> to the id, and returns the id once it has the wanted
  length. An index from 36 to 63 appends nothing. The random source is the argument:
  the bytes in the order nanoid reads them. The package draws again when a batch is
  used up; a finite list that runs out before the id is complete gives \<open>None\<close>.
\<close>

fun customAlphabet_loop :: "nat \<Rightarrow> byte list \<Rightarrow> string \<Rightarrow> string option" where
  "customAlphabet_loop sz [] ident = None"
| "customAlphabet_loop sz (b # bytes) ident =
     (let i = unat (b AND 63);
          ident' = (if i < length alphabet then ident @ [alphabet ! i] else ident)
      in if sz \<le> length ident' then Some ident' else customAlphabet_loop sz bytes ident')"

definition generateVerificationCode :: "byte list \<Rightarrow> string option" where
  "generateVerificationCode randomBytes = customAlphabet_loop 6 randomBytes []"

section \<open>Signed session tokens (lib/security.ts, utils/secureAuth.ts, part 009)\<close>

record SessionData =
  code :: string
  name :: string
  whatsappNumber :: string
  verified :: bool

text \<open>\<open>JWTPayload\<close> without the optional \<open>iat\<close> and \<open>exp\<close>, as the callers build it.\<close>

record JWTPayload =
  userId :: string
  username :: string
  phone :: string
  role :: string

text \<open>The payload of a signed token: the registered claims are added by \<open>jwt.sign\<close>.\<close>

record JWTClaims = JWTPayload +
  iat :: nat
  exp :: nat
  iss :: string
  aud :: string

text \<open>
  A token \<open>header.payload.signature\<close> of the jsonwebtoken package, decoded: the
  algorithm of the header, the claims, and the signature bytes. The base64url and JSON
  coding of the three segments belongs to the package and is not modelled; the keyed
  hash that the header names, taken over the first two segments, is the parameter
  \<open>hs secret (alg, claims)\<close>.
\<close>

record JWT =
  alg :: string
  claims :: "JWTClaims"
  jwt_signature :: "byte list"

type_synonym jwt_hmac = "string \<Rightarrow> string \<times> JWTClaims \<Rightarrow> byte list"

text \<open>
  \<open>getJWTConfig\<close>: the secret and the lifetime. \<open>expiresIn\<close> is the configured span
  (\<open>'1h'\<close> by default) in seconds, as \<open>jwt.sign\<close> reads it.
\<close>

record JWTConfig =
  secret :: string
  expiresIn :: nat

text \<open>
  \<open>jwt.sign(payload, secret, {expiresIn, issuer, audience})\<close> at the clock value \<open>now\<close>
  (milliseconds, \<open>Date.now()\<close>): \<open>iat\<close> is the clock in whole seconds and \<open>exp\<close> is
  \<open>iat + expiresIn\<close>.
\<close>

definition jwt_sign :: "jwt_hmac \<Rightarrow> nat \<Rightarrow> JWTPayload \<Rightarrow> string \<Rightarrow> nat \<Rightarrow> string \<Rightarrow> string \<Rightarrow> JWT" where
  "jwt_sign hs now payload key ttl issuer audience =
     (let c = JWTPayload.extend payload
                (JWTClaims.fields (now div 1000) (now div 1000 + ttl) issuer audience)
      in \<lparr>alg = ''HS256'', claims = c, jwt_signature = hs key (''HS256'', c)\<rparr>)"

text \<open>
  \<open>jwt.verify(token, secret, {issuer, audience})\<close>: the algorithm must be one of the
  HMAC algorithms the package allows for a secret, the signature must be the keyed hash
  of the first two segments, the clock in whole seconds must be below \<open>exp\<close>, and
  audience and issuer must match. Any failure is an exception, here \<open>None\<close>.
\<close>

definition jwt_verify :: "jwt_hmac \<Rightarrow> nat \<Rightarrow> JWT \<Rightarrow> string \<Rightarrow> string \<Rightarrow> string \<Rightarrow> JWTClaims option" where
  "jwt_verify hs now token key issuer audience =
     (if alg token \<notin> set [''HS256'', ''HS384'', ''HS512''] then None
      else if jwt_signature token \<noteq> hs key (alg token, claims token) then None
      else if exp (claims token) \<le> now div 1000 then None
      else if aud (claims token) \<noteq> audience then None
      else if iss (claims token) \<noteq> issuer then None
      else Some (claims token))"

definition generateAccessToken :: "JWTConfig \<Rightarrow> jwt_hmac \<Rightarrow> nat \<Rightarrow> JWTPayload \<Rightarrow> JWT" where
  "generateAccessToken config hs now payload =
     jwt_sign hs now payload (secret config) (expiresIn config)
       ''whatsapp-auth-system'' ''auth-app''"

definition verifyAccessToken :: "JWTConfig \<Rightarrow> jwt_hmac \<Rightarrow> nat \<Rightarrow> JWT \<Rightarrow> JWTClaims option" where
  "verifyAccessToken config hs now token =
     jwt_verify hs now token (secret config) ''whatsapp-auth-system'' ''auth-app''"

definition generateSecureToken :: "JWTConfig \<Rightarrow> jwt_hmac \<Rightarrow> nat \<Rightarrow> SessionData \<Rightarrow> JWT" where
  "generateSecureToken config hs now data =
     generateAccessToken config hs now
       \<lparr>userId = code data, username = name data, phone = whatsappNumber data,
        role = ''user''\<rparr>"

definition verifySecureToken :: "JWTConfig \<Rightarrow> jwt_hmac \<Rightarrow> nat \<Rightarrow> JWT \<Rightarrow> SessionData option" where
  "verifySecureToken config hs now token =
     (case verifyAccessToken config hs now token of
        None \<Rightarrow> None
      | Some payload \<Rightarrow>
          Some \<lparr>code = userId payload, name = username payload,
                whatsappNumber = phone payload, verified = True\<rparr>)"

text \<open>The moment a token expires, in milliseconds of the clock.\<close>

definition expiresAt :: "JWT \<Rightarrow> nat" where
  "expiresAt token = exp (claims token) * 1000"

text \<open>
  The token the reset-password handler mints when it has stored the reset code
  (part 004, lines 111 to 117): the session data carries \<open>verified = false\<close>.
\<close>

definition resetPassword_token ::
  "JWTConfig \<Rightarrow> jwt_hmac \<Rightarrow> nat \<Rightarrow> string \<Rightarrow> string \<Rightarrow> string \<Rightarrow> JWT" where
  "resetPassword_token config hs now data_code existingUser_name validatedPhone =
     generateSecureToken config hs now
       \<lparr>code = data_code, name = existingUser_name, whatsappNumber = validatedPhone,
        verified = False\<rparr>"

text \<open>
  A configuration and a keyed hash to run the definitions on. The secret has the 64
  characters \<open>getJWTConfig\<close> asks for, all different; the lifetime is the default hour.
\<close>

definition example_config :: JWTConfig where
  "example_config =
     \<lparr>secret = ''ABCDEFGHIJKLMNOPQRSTUVWXYZabcdefghijklmnopqrstuvwxyz0123456789-_'',
      expiresIn = 3600\<rparr>"

definition example_jwt_hmac :: jwt_hmac where
  "example_jwt_hmac key input = map of_char (key @ userId (snd input))"

definition example_session :: "bool \<Rightarrow> SessionData" where
  "example_session v =
     \<lparr>code = ''X7K2M9'', name = ''Ann'', whatsappNumber = ''15551234567'', verified = v\<rparr>"

section \<open>Responses (lib/secure-error-handling-enhanced.ts)\<close>

text \<open>The keys of \<open>SECURE_ERROR_MESSAGES\<close> that the handlers below answer with.\<close>

datatype ErrorType =
    AUTH_REQUIRED | AUTH_INVALID | UNAUTHORIZED | INVALID_INPUT | CSRF_INVALID
  | INTERNAL_ERROR | DATABASE_ERROR | RECORD_NOT_FOUND | RECORD_EXISTS | CONFIG_ERROR

text \<open>
  The JSON bodies of the responses: the error body \<open>{success: false, error, code}\<close> of
  \<open>createSecureErrorResponse\<close>, the body of the CSRF issuance (token and message), the
  body of a successful set-password call (user id, name, phone), the acknowledgement
  \<open>{success: true, message?}\<close> of the webhook, and its \<open>{error: 'Unauthorized'}\<close>.
\<close>

datatype ResponseBody =
    ErrorBody ErrorType
  | CsrfTokenBody string string
  | PasswordSetBody string string string
  | WebhookAck "string option"
  | WebhookUnauthorized

text \<open>A \<open>Set-Cookie\<close> header: the \<open>auth_token\<close> cookie holds a token, the \<open>csrf-token\<close>
  cookie a text.\<close>

datatype CookieValue = TokenCookie JWT | TextCookie string

record SetCookie =
  cookie_name :: string
  cookie_value :: CookieValue
  max_age :: nat

record Response =
  status :: nat
  body :: ResponseBody
  setCookie :: "SetCookie option"

definition createSecureErrorResponse :: "ErrorType \<Rightarrow> nat \<Rightarrow> Response" where
  "createSecureErrorResponse errorType statusCode =
     \<lparr>status = statusCode, body = ErrorBody errorType, setCookie = None\<rparr>"

definition createGenericErrorResponse :: Response where
  "createGenericErrorResponse = createSecureErrorResponse INTERNAL_ERROR 500"

definition handleCSRFError :: Response where
  "handleCSRFError = createSecureErrorResponse CSRF_INVALID 403"

definition handleValidationError :: Response where
  "handleValidationError = createSecureErrorResponse INVALID_INPUT 400"


text \<open>\<open>handleDatabaseError\<close> picks the error type by the code of the database error.\<close>

definition handleDatabaseError :: "string option \<Rightarrow> Response" where
  "handleDatabaseError errorCode =
     createSecureErrorResponse
       (if errorCode = Some ''PGRST116'' then RECORD_NOT_FOUND
        else if errorCode = Some ''23505'' then RECORD_EXISTS
        else if errorCode = Some ''23503'' then INVALID_INPUT
        else DATABASE_ERROR) 500"

section \<open>Rate limiting (part 011)\<close>

record RateLimitEntry =
  count :: nat
  resetTime :: nat
  lastRequest :: nat

text \<open>The in-memory \<open>rateLimitStore\<close>, a \<open>Map\<close> from key to entry.\<close>

type_synonym RateLimitStore = "string \<rightharpoonup> RateLimitEntry"

definition empty_rateLimitStore :: RateLimitStore where
  "empty_rateLimitStore = Map.empty"

datatype LimitType = api | auth | passwordReset | webhook

record RateLimitConfig =
  windowMs :: nat
  maxRequests :: nat

fun RATE_LIMITS :: "LimitType \<Rightarrow> RateLimitConfig" where
  "RATE_LIMITS api = \<lparr>windowMs = 15 * 60 * 1000, maxRequests = 50\<rparr>"
| "RATE_LIMITS auth = \<lparr>windowMs = 15 * 60 * 1000, maxRequests = 5\<rparr>"
| "RATE_LIMITS passwordReset = \<lparr>windowMs = 60 * 60 * 1000, maxRequests = 2\<rparr>"
| "RATE_LIMITS webhook = \<lparr>windowMs = 60 * 1000, maxRequests = 30\<rparr>"

fun keyPrefix :: "LimitType \<Rightarrow> string" where
  "keyPrefix api = ''api''"
| "keyPrefix auth = ''auth''"
| "keyPrefix passwordReset = ''password_reset''"
| "keyPrefix webhook = ''webhook''"

text \<open>
  The four \<open>keyGenerator\<close>s differ in the prefix only: forwarded address, else real
  address, else \<open>unknown\<close>, and the first 20 characters of the user agent.
\<close>

definition keyGenerator :: "LimitType \<Rightarrow> NextRequest \<Rightarrow> string" where
  "keyGenerator limitType request =
     (let ip = (if truthy (headers_get request ''x-forwarded-for'')
                then the (headers_get request ''x-forwarded-for'')
                else js_or_default (headers_get request ''x-real-ip'') ''unknown'');
          userAgent = js_or_default (headers_get request ''user-agent'') ''unknown''
      in keyPrefix limitType @ '':'' @ ip @ '':'' @ take 20 userAgent)"

text \<open>\<open>cleanupExpiredEntries\<close> with its own reading \<open>now\<close> of the clock.\<close>

definition cleanupExpiredEntries :: "nat \<Rightarrow> RateLimitStore \<Rightarrow> RateLimitStore" where
  "cleanupExpiredEntries now store =
     (\<lambda>key. case store key of
               None \<Rightarrow> None
             | Some entry \<Rightarrow> if now > resetTime entry then None else Some entry)"

record RateLimitResult =
  allowed :: bool
  remaining :: int
  result_resetTime :: nat
  retryAfter :: "nat option"

text \<open>\<open>Math.ceil(ms / 1000)\<close> for a span \<open>ms\<close> that is not negative.\<close>

definition ceil_seconds :: "nat \<Rightarrow> nat" where
  "ceil_seconds ms = (ms + 999) div 1000"

text \<open>
  \<open>checkRateLimit\<close>. \<open>now\<close> is the clock the function reads first, \<open>cleanupNow\<close> the
  clock \<open>cleanupExpiredEntries\<close> reads after it. The result comes with the store the
  call leaves behind.
\<close>

definition checkRateLimit ::
  "LimitType \<Rightarrow> NextRequest \<Rightarrow> nat \<Rightarrow> nat \<Rightarrow> RateLimitStore \<Rightarrow> RateLimitResult \<times> RateLimitStore" where
  "checkRateLimit limitType request now cleanupNow store0 =
     (let config = RATE_LIMITS limitType;
          key = keyGenerator limitType request;
          store = cleanupExpiredEntries cleanupNow store0;
          fresh = (\<lparr>allowed = True, remaining = int (maxRequests config) - 1,
                     result_resetTime = now + windowMs config, retryAfter = None\<rparr>,
                   store(key \<mapsto> \<lparr>count = 1, resetTime = now + windowMs config,
                                  lastRequest = now\<rparr>))
      in case store key of
           None \<Rightarrow> fresh
         | Some entry \<Rightarrow>
             if now > resetTime entry then fresh
             else if count entry \<ge> maxRequests config then
               (\<lparr>allowed = False, remaining = 0, result_resetTime = resetTime entry,
                 retryAfter = Some (ceil_seconds (resetTime entry - now))\<rparr>, store)
             else
               let entry' = entry\<lparr>count := count entry + 1, lastRequest := now\<rparr> in
               (\<lparr>allowed = True, remaining = int (maxRequests config) - int (count entry'),
                 result_resetTime = resetTime entry, retryAfter = None\<rparr>,
                store(key \<mapsto> entry')))"

text \<open>
  The store after a sequence of calls for one category and request, each call given by
  its two clock readings.
\<close>

fun checkRateLimit_calls ::
  "LimitType \<Rightarrow> NextRequest \<Rightarrow> (nat \<times> nat) list \<Rightarrow> RateLimitStore \<Rightarrow> RateLimitStore" where
  "checkRateLimit_calls limitType request [] store = store"
| "checkRateLimit_calls limitType request ((now, cleanupNow) # clocks) store =
     checkRateLimit_calls limitType request clocks
       (snd (checkRateLimit limitType request now cleanupNow store))"

text \<open>Both clock readings of every call lie at or before a given time.\<close>

definition clocks_until :: "nat \<Rightarrow> (nat \<times> nat) list \<Rightarrow> bool" where
  "clocks_until t clocks = list_all (\<lambda>(now, cleanupNow). now \<le> t \<and> cleanupNow \<le> t) clocks"

definition example_request :: NextRequest where
  "example_request =
     \<lparr>req_method = ''POST'',
      headers = [(''x-forwarded-for'', ''203.0.113.7''), (''user-agent'', ''Mozilla/5.0'')],
      cookies = [], rawBody = ''''\<rparr>"

section \<open>The store (verification\_codes and users tables)\<close>

record VerificationCode =
  vc_code :: string
  vc_name :: string
  whatsapp_number :: string
  vc_verified :: bool
  expires_at :: nat
  verified_at :: "nat option"

record UserRow =
  user_id :: string
  user_phone :: string
  user_name :: string
  password_hash :: string
  user_verified :: bool
  created_at :: nat
  updated_at :: nat

record Database =
  verification_codes :: "VerificationCode list"
  users :: "UserRow list"

text \<open>
  The result of a query: the data, or an error with its code. \<open>.single()\<close> gives the
  row when the filter leaves exactly one row and the error \<open>PGRST116\<close> otherwise.
\<close>

datatype 'a QueryResult = QueryData 'a | QueryError string

definition single :: "'a list \<Rightarrow> 'a QueryResult" where
  "single rows = (case rows of [r] \<Rightarrow> QueryData r | _ \<Rightarrow> QueryError ''PGRST116'')"

section \<open>Webhook (app/api/webhooks/whatsapp/route.ts, webhook-security in lib/supabase.ts)\<close>





























definition example_row :: VerificationCode where
  "example_row =
     \<lparr>vc_code = ''X7K2M9'', vc_name = ''Ann'', whatsapp_number = ''15551234567'',
      vc_verified = False, expires_at = 600000, verified_at = None\<rparr>"




section \<open>Setting the password (app/api/set-password/route.ts, lib/auth-utils.ts)\<close>

definition toLower :: "char \<Rightarrow> char" where
  "toLower c = (if isUpper c then char_of ((of_char c :: nat) + 32) else c)"

definition toLowerCase :: "string \<Rightarrow> string" where
  "toLowerCase s = map toLower s"

text \<open>\<open>s.includes(p)\<close>.\<close>

fun str_includes :: "string \<Rightarrow> string \<Rightarrow> bool" where
  "str_includes [] p = (p = [])"
| "str_includes (c # cs) p = (startsWith (c # cs) p \<or> str_includes cs p)"

text \<open>\<open>/(.)\1{3,}/\<close>: four equal characters in a row, none of them a line terminator.\<close>

fun hasRepeated4 :: "string \<Rightarrow> bool" where
  "hasRepeated4 (a # b # c # d # rest) =
     ((a = b \<and> b = c \<and> c = d \<and> a \<noteq> CHR 0x0A \<and> a \<noteq> CHR 0x0D)
      \<or> hasRepeated4 (b # c # d # rest))"
| "hasRepeated4 s = False"

datatype PasswordError =
    PasswordRequired | PasswordTooShort | PasswordTooLong | PasswordWithoutLetter
  | PasswordHoldsPassword | PasswordSequentialNumbers | PasswordRepeatedCharacters

record PasswordValidation =
  pw_isValid :: bool
  pw_errors :: "PasswordError list"

text \<open>\<open>validatePassword\<close> of lib/auth-utils.ts, which collects the errors.\<close>

definition validatePassword :: "string \<Rightarrow> PasswordValidation" where
  "validatePassword pw =
     (if pw = [] then \<lparr>pw_isValid = False, pw_errors = [PasswordRequired]\<rparr>
      else
        let errors =
              (if length pw < 6 then [PasswordTooShort] else [])
              @ (if length pw > 128 then [PasswordTooLong] else [])
              @ (if \<not> list_ex isLetter pw then [PasswordWithoutLetter] else [])
              @ (if str_includes (toLowerCase pw) ''password'' then [PasswordHoldsPassword] else [])
              @ (if str_includes (toLowerCase pw) ''123456'' then [PasswordSequentialNumbers] else [])
              @ (if hasRepeated4 pw then [PasswordRepeatedCharacters] else [])
        in \<lparr>pw_isValid = (errors = []), pw_errors = errors\<rparr>)"

text \<open>The JSON body \<open>{password, code}\<close> of the request.\<close>

record SetPasswordBody =
  body_password :: string
  body_code :: string

text \<open>
  What a call finds outside of the handler: the token configuration and keyed hash, the
  decoding of a cookie text into a token by the jsonwebtoken package (\<open>None\<close> for a text
  that is no token), \<open>sanitizeUserInput\<close> on a string, the bcrypt hash, the clock, the
  id the store gives a new user, and whether one of the four store calls fails.
\<close>

record SetPasswordEnv =
  sp_config :: JWTConfig
  sp_hmac :: jwt_hmac
  sp_decode :: "string \<Rightarrow> JWT option"
  sp_sanitize :: "string \<Rightarrow> string"
  sp_bcrypt :: "string \<Rightarrow> string"
  sp_now :: nat
  sp_newUserId :: string
  sp_lookupFails :: bool
  sp_userCheckFails :: bool
  sp_updateFails :: bool
  sp_insertFails :: bool

text \<open>The answer of a successful call: the user, and the new token as \<open>auth_token\<close> cookie.\<close>

definition passwordSetResponse :: "string \<Rightarrow> VerificationCode \<Rightarrow> JWT \<Rightarrow> Response" where
  "passwordSetResponse uid verificationData secureToken =
     \<lparr>status = 200,
      body = PasswordSetBody uid (vc_name verificationData) (whatsapp_number verificationData),
      setCookie = Some \<lparr>cookie_name = ''auth_token'', cookie_value = TokenCookie secureToken,
                        max_age = 60 * 60\<rparr>\<rparr>"

text \<open>
  \<open>POST\<close>. \<open>json\<close> is the parsed body, \<open>None\<close> when \<open>request.json()\<close> throws.
  The insert of a user fails with code 23505 when the phone is taken (\<open>phone\<close> is
  \<open>UNIQUE\<close> in the users table).
\<close>

definition set_password_POST ::
  "SetPasswordEnv \<Rightarrow> Database \<Rightarrow> NextRequest \<Rightarrow> SetPasswordBody option \<Rightarrow> Database \<times> Response" where
  "set_password_POST env db request json =
     (if \<not> validateDoubleSubmitCSRF request then (db, handleCSRFError)
      else
        let authToken = cookies_get request ''auth_token'' in
        if \<not> truthy authToken then (db, createSecureErrorResponse AUTH_REQUIRED 401)
        else
          (case (case sp_decode env (the authToken) of
                   None \<Rightarrow> None
                 | Some token \<Rightarrow>
                     verifySecureToken (sp_config env) (sp_hmac env) (sp_now env) token) of
             None \<Rightarrow> (db, createSecureErrorResponse AUTH_INVALID 401)
           | Some sessionData \<Rightarrow>
               (case json of
                  None \<Rightarrow> (db, createGenericErrorResponse)
                | Some b \<Rightarrow>
                    let sanitizedPassword = sp_sanitize env (body_password b);
                        sanitizedCode = sp_sanitize env (body_code b)
                    in
                    if \<not> pw_isValid (validatePassword sanitizedPassword)
                    then (db, handleValidationError)
                    else if code sessionData \<noteq> sanitizedCode
                    then (db, createSecureErrorResponse UNAUTHORIZED 403)
                    else
                      (case (if sp_lookupFails env then QueryError ''fetch failed''
                             else single (filter (\<lambda>r. vc_code r = sanitizedCode \<and> vc_verified r
                                                       \<and> expires_at r > sp_now env)
                                            (verification_codes db))) of
                         QueryError e \<Rightarrow> (db, handleDatabaseError (Some e))
                       | QueryData verificationData \<Rightarrow>
                           let validatedPhone = whatsapp_number verificationData;
                               passwordHash = sp_bcrypt env sanitizedPassword;
                               secureToken =
                                 generateSecureToken (sp_config env) (sp_hmac env) (sp_now env)
                                   \<lparr>code = vc_code verificationData,
                                    name = vc_name verificationData,
                                    whatsappNumber = whatsapp_number verificationData,
                                    verified = True\<rparr>;
                               createUser =
                                 (if sp_insertFails env
                                  then (db, handleDatabaseError (Some ''fetch failed''))
                                  else if list_ex (\<lambda>u. user_phone u = validatedPhone) (users db)
                                  then (db, handleDatabaseError (Some ''23505''))
                                  else
                                    (db\<lparr>users := users db @
                                         [\<lparr>user_id = sp_newUserId env, user_phone = validatedPhone,
                                           user_name = vc_name verificationData,
                                           password_hash = passwordHash, user_verified = True,
                                           created_at = sp_now env, updated_at = sp_now env\<rparr>]\<rparr>,
                                     passwordSetResponse (sp_newUserId env) verificationData
                                       secureToken))
                           in
                           (case (if sp_userCheckFails env then QueryError ''fetch failed''
                                  else single (filter (\<lambda>u. user_phone u = validatedPhone)
                                                 (users db))) of
                              QueryError e \<Rightarrow>
                                if e \<noteq> ''PGRST116'' then (db, handleDatabaseError (Some e))
                                else createUser
                            | QueryData existingUser \<Rightarrow>
                                if sp_updateFails env
                                then (db, handleDatabaseError (Some ''fetch failed''))
                                else
                                  (db\<lparr>users :=
                                       map (\<lambda>u. if user_id u = user_id existingUser
                                                 then u\<lparr>password_hash := passwordHash,
                                                        updated_at := sp_now env\<rparr>
                                                 else u)
                                         (users db)\<rparr>,
                                   passwordSetResponse (user_id existingUser) verificationData
                                     secureToken))))))"

text \<open>
  The token the password-login handler mints when the password matches (auth-password
  \<open>POST\<close>, in the file of the webhook route, lines 351 to 362): its session identifier is
  \<open>crypto.randomBytes(64).toString('hex')\<close>, with the random bytes as the argument.
\<close>

definition authPassword_token ::
  "JWTConfig \<Rightarrow> jwt_hmac \<Rightarrow> nat \<Rightarrow> byte list \<Rightarrow> UserRow \<Rightarrow> JWT" where
  "authPassword_token config hs now randomBytes user =
     (let sessionId = hexEncode randomBytes in
      generateSecureToken config hs now
        \<lparr>code = sessionId, name = user_name user, whatsappNumber = user_phone user,
         verified = True\<rparr>)"

text \<open>
  A call to run the handler on: the client holds the session of the verified code
  \<open>X7K2M9\<close>, minted at clock 0, and sets the password \<open>abc123\<close> at clock 1000.
\<close>

definition example_sp_env :: SetPasswordEnv where
  "example_sp_env =
     \<lparr>sp_config = example_config, sp_hmac = example_jwt_hmac,
      sp_decode = (\<lambda>cookieText. if cookieText = ''session-cookie''
                     then Some (generateSecureToken example_config example_jwt_hmac 0
                                  (example_session True))
                     else None),
      sp_sanitize = (\<lambda>s. s), sp_bcrypt = (\<lambda>pw. ''bcrypt:'' @ pw), sp_now = 1000,
      sp_newUserId = ''user-1'', sp_lookupFails = False, sp_userCheckFails = False,
      sp_updateFails = False, sp_insertFails = False\<rparr>"

definition example_sp_request :: NextRequest where
  "example_sp_request =
     \<lparr>req_method = ''POST'', headers = [(''x-csrf-token'', ''5f2a9c'')],
      cookies = [(''csrf-token'', ''5f2a9c''), (''auth_token'', ''session-cookie'')],
      rawBody = ''''\<rparr>"

definition example_sp_database :: Database where
  "example_sp_database =
     \<lparr>verification_codes = [example_row\<lparr>vc_verified := True, verified_at := Some 500\<rparr>],
      users = []\<rparr>"

definition example_sp_body :: SetPasswordBody where
  "example_sp_body = \<lparr>body_password = ''abc123'', body_code = ''X7K2M9''\<rparr>"

section \<open>CSRF token issuance (app/api/csrf-token/route.ts, part 005, part 013)\<close>

text \<open>
  \<open>generateCSRFToken\<close>: the 64 bytes that \<open>crypto.getRandomValues\<close> fills in are the
  argument; each byte becomes two lowercase hexadecimal digits.
\<close>

definition generateCSRFToken :: "byte list \<Rightarrow> string" where
  "generateCSRFToken randomValues = hexEncode randomValues"

definition setCSRFCookie :: "Response \<Rightarrow> string \<Rightarrow> Response" where
  "setCSRFCookie response token =
     response\<lparr>setCookie := Some \<lparr>cookie_name = ''csrf-token'', cookie_value = TextCookie token,
                                   max_age = 10 * 60\<rparr>\<rparr>"

text \<open>
  \<open>GET\<close> of app/api/csrf-token/route.ts. The \<open>sessionId\<close> it computes from the
  \<open>x-session-id\<close> header, the \<open>auth_token\<close> cookie or 16 random bytes is never used and
  is left out.
\<close>

definition csrf_token_GET :: "byte list \<Rightarrow> NextRequest \<Rightarrow> Response" where
  "csrf_token_GET randomValues request =
     (if \<not> truthy (headers_get request ''user-agent'')
      then createSecureErrorResponse INVALID_INPUT 400
      else
        let token = generateCSRFToken randomValues in
        if token = [] then createSecureErrorResponse INTERNAL_ERROR 500
        else
          setCSRFCookie
            \<lparr>status = 200, body = CsrfTokenBody token ''CSRF token generated successfully'',
             setCookie = None\<rparr>
            token)"

text \<open>\<open>GET\<close> of part 005, the variant of the same handler that looks at the cookie.\<close>

definition csrf_token_GET_part_005 :: "byte list \<Rightarrow> NextRequest \<Rightarrow> Response" where
  "csrf_token_GET_part_005 randomValues request =
     (if \<not> truthy (headers_get request ''user-agent'')
      then createSecureErrorResponse INVALID_INPUT 400
      else
        let existingToken = cookies_get request ''csrf-token'';
            token = (if truthy existingToken then the existingToken
                     else generateCSRFToken randomValues)
        in
        if token = [] then createSecureErrorResponse INTERNAL_ERROR 500
        else
          let response =
                \<lparr>status = 200,
                 body = CsrfTokenBody token
                          (if truthy existingToken then ''CSRF token retrieved successfully''
                           else ''CSRF token generated successfully''),
                 setCookie = None\<rparr>
          in if \<not> truthy existingToken then setCSRFCookie response token else response)"

text \<open>A client that holds a \<open>csrf-token\<close> cookie asks for a token.\<close>

definition example_csrf_request :: NextRequest where
  "example_csrf_request =
     \<lparr>req_method = ''GET'', headers = [(''user-agent'', ''Mozilla/5.0'')],
      cookies = [(''csrf-token'', ''5f2a9c'')], rawBody = ''''\<rparr>"

section \<open>Properties\<close>

subsection \<open>Double-submit CSRF validation\<close>

lemma charCode_xor_zero: "charCodeAt a j XOR charCodeAt b j = 0 \<longleftrightarrow> a ! j = b ! j"
  unfolding charCodeAt_def
  by (metis of_char_eq_iff xor.left_commute xor.right_neutral xor_self_eq)

lemma fold_or_xor_zero:
  "fold (\<lambda>i result. result OR (charCodeAt a i XOR charCodeAt b i)) js r = 0
     \<longleftrightarrow> r = 0 \<and> (\<forall>i \<in> set js. a ! i = b ! i)"
proof (induction js arbitrary: r)
  case Nil
  then show ?case by simp
next
  case (Cons j js)
  show ?case
    unfolding fold_Cons comp_apply Cons.IH or_eq_0_iff charCode_xor_zero
    by auto
qed

lemma timingSafeEqual_iff: "timingSafeEqual a b \<longleftrightarrow> a = b"
proof (cases "length a = length b")
  case True
  then show ?thesis
    unfolding timingSafeEqual_def timingSafeEqual_loop_def fold_or_xor_zero
    by (auto simp: list_eq_iff_nth_eq [of a b])
next
  case False
  then show ?thesis
    unfolding timingSafeEqual_def by auto
qed

lemma truthy_iff: "truthy x \<longleftrightarrow> (\<exists>t. t \<noteq> [] \<and> x = Some t)"
  by (cases x) auto

text \<open>
  C3, as the code has it. The only exempt method is \<open>GET\<close>. Every other method,
  the side-effect-free \<open>HEAD\<close> and \<open>OPTIONS\<close> included, passes exactly when the
  \<open>x-csrf-token\<close> header and the \<open>csrf-token\<close> cookie are both present, both
  non-empty, and equal.
\<close>

theorem validateDoubleSubmitCSRF_iff:
  "validateDoubleSubmitCSRF request \<longleftrightarrow>
     req_method request = ''GET'' \<or>
     (\<exists>t. t \<noteq> [] \<and> headers_get request ''x-csrf-token'' = Some t
          \<and> cookies_get request ''csrf-token'' = Some t)"
  unfolding validateDoubleSubmitCSRF_def Let_def timingSafeEqual_iff truthy_iff
  by auto

theorem validateDoubleSubmitCSRF_iff_witness:
  "validateDoubleSubmitCSRF
     \<lparr>req_method = ''POST'', headers = [(''x-csrf-token'', ''a1b2'')],
      cookies = [(''csrf-token'', ''a1b2'')], rawBody = ''''\<rparr>"
  using validateDoubleSubmitCSRF_iff
    [of "\<lparr>req_method = ''POST'', headers = [(''x-csrf-token'', ''a1b2'')],
      cookies = [(''csrf-token'', ''a1b2'')], rawBody = ''''\<rparr>"]
  by (simp add: headers_get_def cookies_get_def)

text \<open>
  C3 as the specification words it fails: a \<open>HEAD\<close> request, a side-effect-free
  method, that carries neither cookie nor header is rejected.
\<close>

theorem validateDoubleSubmitCSRF_safe_method_counterexample:
  "\<not> validateDoubleSubmitCSRF
     \<lparr>req_method = ''HEAD'', headers = [], cookies = [], rawBody = ''''\<rparr>"
  by (simp add: validateDoubleSubmitCSRF_def headers_get_def cookies_get_def)

subsection \<open>Webhook signature\<close>

lemma hexValue_hexDigit: "n < 16 \<Longrightarrow> hexValue (hexDigit n) = Some n"
  by (simp add: hexValue_def hexDigit_def)

lemma byte_nibbles: "word_of_nat (16 * (unat b div 16) + unat b mod 16) = (b::byte)"
  by simp

lemma hexDecode_hexEncode: "hexDecode (hexEncode bs) = bs"
proof (induction bs)
  case Nil
  then show ?case by simp
next
  case (Cons b bs)
  have "unat b < 2 ^ LENGTH(8)" by (rule unsigned_less)
  then have hi: "unat b div 16 < 16" by simp
  have lo: "unat b mod 16 < 16" by simp
  show ?case
    using Cons.IH byte_nibbles [of b]
    by (simp add: hexValue_hexDigit [OF hi] hexValue_hexDigit [OF lo])
qed

lemma startsWith_iff: "startsWith s p \<longleftrightarrow> (\<exists>h. s = p @ h)"
proof
  assume "startsWith s p"
  then have "s = p @ drop (length p) s"
    unfolding startsWith_def by (metis append_take_drop_id)
  then show "\<exists>h. s = p @ h" ..
next
  assume "\<exists>h. s = p @ h"
  then show "startsWith s p"
    unfolding startsWith_def by auto
qed

text \<open>
  C2. \<open>verifyWebhookSignature\<close> returns true exactly when payload and secret are
  non-empty, the signature is present and is \<open>sha256=\<close> followed by 64 hexadecimal
  digits (either case), and the bytes those digits denote are the HMAC-SHA-256 digest
  of the payload under the secret; otherwise it returns false.
\<close>

theorem verifyWebhookSignature_iff:
  "verifyWebhookSignature hmac_sha256 payload signature appSecret \<longleftrightarrow>
     payload \<noteq> [] \<and> appSecret \<noteq> [] \<and>
     (\<exists>h. signature = Some (''sha256='' @ h) \<and> length h = 64 \<and> list_all isHexDigit h
          \<and> hexDecode h = hmac_sha256 appSecret payload)"
proof (cases signature)
  case None
  then show ?thesis by (simp add: verifyWebhookSignature_def)
next
  case (Some s)
  show ?thesis
  proof (cases "startsWith s ''sha256=''")
    case False
    then show ?thesis
      using Some startsWith_iff [of s] by (auto simp: verifyWebhookSignature_def)
  next
    case True
    then obtain h where s: "s = ''sha256='' @ h"
      using startsWith_iff by blast
    have ne: "s \<noteq> []" using s by simp
    have d: "drop 7 s = h" using s by simp
    have "verifyWebhookSignature hmac_sha256 payload signature appSecret \<longleftrightarrow>
            payload \<noteq> [] \<and> appSecret \<noteq> [] \<and> length h = 64 \<and> list_all isHexDigit h
              \<and> hexDecode h = hmac_sha256 appSecret payload"
      unfolding verifyWebhookSignature_def Some Let_def option.sel d hexDecode_hexEncode
        crypto_timingSafeEqual_def
      using True ne by (auto simp del: hexDecode.simps)
    then show ?thesis
      unfolding Some s by simp
  qed
qed

text \<open>The detailed variant, used by the webhook handler, decides validity the same way.\<close>

lemma verifyWebhookSignatureDetailed_isValid:
  "isValid (verifyWebhookSignatureDetailed hmac_sha256 payload signature appSecret) =
     verifyWebhookSignature hmac_sha256 payload signature appSecret"
  by (simp add: verifyWebhookSignatureDetailed_def verifyWebhookSignature_def Let_def
      split: option.splits)

theorem verifyWebhookSignature_iff_witness:
  "verifyWebhookSignature (\<lambda>key payload. replicate 32 0) ''{}''
     (Some (''sha256='' @ replicate 64 (CHR ''0''))) ''app-secret''"
proof -
  have "hexDecode (replicate 64 (CHR ''0'')) = replicate 32 0"
    by (simp add: numeral_eq_Suc hexValue_def)
  moreover have "list_all isHexDigit (replicate 64 (CHR ''0''))"
    by (simp add: numeral_eq_Suc isHexDigit_def isDigit_def)
  ultimately show ?thesis
    using verifyWebhookSignature_iff
      [of "\<lambda>key payload. replicate 32 0" "''{}''"
          "Some (''sha256='' @ replicate 64 (CHR ''0''))" "''app-secret''"]
    by simp
qed

subsection \<open>Verification codes in message text\<close>

lemma isAlnum_isWordChar: "isAlnum c \<Longrightarrow> isWordChar c"
  by (simp add: isWordChar_def)

lemma takeWhile_length_split:
  "length (takeWhile P xs) = n \<Longrightarrow> take n xs = takeWhile P xs \<and> drop n xs = dropWhile P xs"
  by (metis append_eq_conv_conj takeWhile_dropWhile_id)

lemma nth5_take6_all: "6 \<le> length xs \<Longrightarrow> list_all P (take 6 xs) \<Longrightarrow> P (xs ! 5)"
proof -
  assume len: "6 \<le> length xs" and al: "list_all P (take 6 xs)"
  then have "5 < length (take 6 xs)" by simp
  then have "take 6 xs ! 5 \<in> set (take 6 xs)" by (rule nth_mem)
  then have "P (take 6 xs ! 5)" using al by (simp only: list_all_iff)
  then show ?thesis by simp
qed

lemma wordAt_dropWhile: "\<not> wordAt (dropWhile isWordChar xs)"
  by (induction xs) (simp_all add: wordAt_def)

lemma not_wordAt_takeWhile: "\<not> wordAt ys \<Longrightarrow> takeWhile isWordChar ys = []"
  by (cases ys) (simp_all add: wordAt_def)

lemma matchHere_nonword: "\<not> isWordChar c \<Longrightarrow> \<not> matchHere prev (c # cs)"
proof
  assume nw: "\<not> isWordChar c" and m: "matchHere prev (c # cs)"
  from m have "list_all isAlnum (take 6 (c # cs))"
    by (simp add: matchHere_def)
  then have "isAlnum c" by (simp add: take_Cons')
  with nw show False by (simp add: isAlnum_isWordChar)
qed

lemma matchHere_midword: "wordBefore prev \<Longrightarrow> isWordChar c \<Longrightarrow> \<not> matchHere prev (c # cs)"
  by (simp add: matchHere_def wordBoundary_def wordAt_def)

lemma matchHere_run:
  assumes "\<not> wordBefore prev" and "isWordChar c"
  shows "matchHere prev (c # cs) \<longleftrightarrow>
         length (takeWhile isWordChar (c # cs)) = 6 \<and> list_all isAlnum (takeWhile isWordChar (c # cs))"
proof
  let ?rest = "c # cs"
  assume m: "matchHere prev ?rest"
  then have len: "6 \<le> length ?rest" and al: "list_all isAlnum (take 6 ?rest)"
    and b: "wordBoundary (Some (?rest ! 5)) (drop 6 ?rest)"
    by (simp_all add: matchHere_def)
  have "isAlnum (?rest ! 5)"
    using len al by (rule nth5_take6_all)
  then have "isWordChar (?rest ! 5)"
    by (rule isAlnum_isWordChar)
  then have nw: "\<not> wordAt (drop 6 ?rest)"
    using b by (simp add: wordBoundary_def wordBefore_def)
  have "list_all isWordChar (take 6 ?rest)"
    using al by (simp add: list_all_iff isAlnum_isWordChar)
  then have "takeWhile isWordChar (take 6 ?rest @ drop 6 ?rest)
             = take 6 ?rest @ takeWhile isWordChar (drop 6 ?rest)"
    by (simp add: list_all_iff takeWhile_append2 del: append_take_drop_id)
  then have tw: "takeWhile isWordChar ?rest = take 6 ?rest"
    using not_wordAt_takeWhile [OF nw] by simp
  show "length (takeWhile isWordChar ?rest) = 6 \<and> list_all isAlnum (takeWhile isWordChar ?rest)"
    unfolding tw using len al by simp
next
  let ?rest = "c # cs"
  assume r: "length (takeWhile isWordChar ?rest) = 6 \<and> list_all isAlnum (takeWhile isWordChar ?rest)"
  then have t: "take 6 ?rest = takeWhile isWordChar ?rest"
    and d: "drop 6 ?rest = dropWhile isWordChar ?rest"
    using takeWhile_length_split [of isWordChar ?rest 6] by simp_all
  have len: "6 \<le> length ?rest"
    using r length_takeWhile_le [of isWordChar ?rest] by simp
  have "list_all isAlnum (take 6 ?rest)"
    unfolding t using r by simp
  with len have "isAlnum (?rest ! 5)"
    by (rule nth5_take6_all)
  then have "isWordChar (?rest ! 5)"
    by (rule isAlnum_isWordChar)
  then have "wordBoundary (Some (?rest ! 5)) (drop 6 ?rest)"
    unfolding d using wordAt_dropWhile [of ?rest]
    by (simp add: wordBoundary_def wordBefore_def)
  moreover have "wordBoundary prev ?rest"
    using assms by (simp add: wordBoundary_def wordAt_def)
  ultimately show "matchHere prev ?rest"
    unfolding matchHere_def using len r t by simp
qed

lemma matchAll_wordRuns:
  "matchAll prev rest =
     filter isSixAlnum (wordRuns (if wordBefore prev then dropWhile isWordChar rest else rest))"
proof (induction prev rest rule: matchAll.induct)
  case (1 prev)
  then show ?case by simp
next
  case (2 prev c cs)
  let ?rest = "c # cs"
  show ?case
  proof (cases "isWordChar c")
    case False
    then have nm: "\<not> matchHere prev ?rest" by (rule matchHere_nonword)
    have "\<not> wordBefore (Some c)" using False by (simp add: wordBefore_def)
    then show ?thesis
      using 2(2) [OF nm] nm False by simp
  next
    case wc: True
    then have wb: "wordBefore (Some c)" by (simp add: wordBefore_def)
    show ?thesis
    proof (cases "wordBefore prev")
      case True
      then have nm: "\<not> matchHere prev ?rest" using wc by (rule matchHere_midword)
      show ?thesis
        using 2(2) [OF nm] nm wc True wb by simp
    next
      case False
      show ?thesis
      proof (cases "matchHere prev ?rest")
        case nm: False
        then have "\<not> isSixAlnum (takeWhile isWordChar ?rest)"
          using matchHere_run [OF False wc, of cs] by (simp add: isSixAlnum_def)
        then show ?thesis
          using 2(2) [OF nm] nm wc False wb by simp
      next
        case m: True
        then have six: "isSixAlnum (takeWhile isWordChar ?rest)"
          using matchHere_run [OF False wc, of cs] by (simp add: isSixAlnum_def)
        then have t: "take 6 ?rest = takeWhile isWordChar ?rest"
          and d: "drop 6 ?rest = dropWhile isWordChar ?rest"
          using takeWhile_length_split [of isWordChar ?rest 6] by (simp_all add: isSixAlnum_def)
        have d5: "drop 5 cs = dropWhile isWordChar cs"
          using d wc by simp
        have "6 \<le> length ?rest" and "list_all isAlnum (take 6 ?rest)"
          using m by (simp_all add: matchHere_def)
        then have "isAlnum (?rest ! 5)"
          by (rule nth5_take6_all)
        then have "isWordChar (?rest ! 5)"
          by (rule isAlnum_isWordChar)
        then have wb5: "wordBefore (Some (?rest ! 5))" by (simp add: wordBefore_def)
        have "matchAll prev ?rest = take 6 ?rest # matchAll (Some (?rest ! 5)) (drop 5 cs)"
          using m by simp
        also have "matchAll (Some (?rest ! 5)) (drop 5 cs)
                   = filter isSixAlnum (wordRuns (dropWhile isWordChar (drop 5 cs)))"
          using 2(1) [OF m] wb5 by simp
        also have "dropWhile isWordChar (drop 5 cs) = dropWhile isWordChar cs"
          unfolding d5 by (simp add: dropWhile_idem)
        finally have lhs: "matchAll prev ?rest
            = take 6 ?rest # filter isSixAlnum (wordRuns (dropWhile isWordChar cs))" .
        have rhs: "filter isSixAlnum (wordRuns ?rest)
            = takeWhile isWordChar ?rest # filter isSixAlnum (wordRuns (dropWhile isWordChar cs))"
          using six wc by simp
        have "(if wordBefore prev then dropWhile isWordChar ?rest else ?rest) = ?rest"
          using False by simp
        then show ?thesis
          by (simp only: lhs rhs t)
      qed
    qed
  qed
qed

lemma find_filter_conj: "find P (filter Q xs) = find (\<lambda>x. Q x \<and> P x) xs"
  by (induction xs) auto

text \<open>
  C5, as the code has it. \<open>extractVerificationCode\<close> returns, uppercased, the first
  run of exactly six letters and digits that holds both a letter and a digit and is
  delimited by word boundaries (a maximal run of letters, digits and underscores of the
  message), and no match when there is none. The three examples hold.
\<close>

theorem extractVerificationCode_word_delimited:
  "extractVerificationCode message = firstWordDelimitedCode message
   \<and> extractVerificationCode ''please VERIFY ab12c3 now'' = Some ''AB12C3''
   \<and> extractVerificationCode ''PLEASE VERIFY'' = None
   \<and> extractVerificationCode ''123456'' = None"
proof -
  have c: "(\<lambda>w. isSixAlnum w \<and> hasLetterNumber w) = isCodeRun"
    by (auto simp: isCodeRun_def isSixAlnum_def)
  have m: "matchAll None message = filter isSixAlnum (wordRuns message)"
    by (simp add: matchAll_wordRuns wordBefore_def)
  have f: "find hasLetterNumber (matchAll None message) = find isCodeRun (wordRuns message)"
    unfolding m find_filter_conj c ..
  have "matchAll None message = [] \<Longrightarrow> find hasLetterNumber (matchAll None message) = None"
    by simp
  then have "extractVerificationCode message = firstWordDelimitedCode message"
    unfolding extractVerificationCode_def firstWordDelimitedCode_def Let_def f
    by (auto split: option.splits)
  moreover have "extractVerificationCode ''please VERIFY ab12c3 now'' = Some ''AB12C3''"
    by code_simp
  moreover have "extractVerificationCode ''PLEASE VERIFY'' = None"
    by code_simp
  moreover have "extractVerificationCode ''123456'' = None"
    by code_simp
  ultimately show ?thesis by simp
qed

theorem extractVerificationCode_word_delimited_witness:
  "extractVerificationCode ''my code is x7k2m9, thanks'' = Some ''X7K2M9''"
proof -
  have "firstWordDelimitedCode ''my code is x7k2m9, thanks'' = Some ''X7K2M9''"
    by code_simp
  then show ?thesis
    using extractVerificationCode_word_delimited [of "''my code is x7k2m9, thanks''"]
    by simp
qed

text \<open>
  C5 as the specification words it fails: in \<open>code:ab12c3.\<close> no whitespace-delimited
  run has six characters, yet the code is found, because a colon and a full stop
  delimit it.
\<close>

theorem extractVerificationCode_whitespace_counterexample:
  "extractVerificationCode ''code:ab12c3.'' = Some ''AB12C3''
   \<and> firstWhitespaceDelimitedCode ''code:ab12c3.'' = None"
  by code_simp

subsection \<open>Code generation\<close>

lemma customAlphabet_loop_shape:
  "customAlphabet_loop sz bytes ident = Some generated \<Longrightarrow> length ident < sz \<Longrightarrow>
   set ident \<subseteq> set alphabet \<Longrightarrow> length generated = sz \<and> set generated \<subseteq> set alphabet"
proof (induction sz bytes ident rule: customAlphabet_loop.induct)
  case (1 sz ident)
  then show ?case by simp
next
  case (2 sz b bytes ident)
  let ?i = "unat (b AND 63)"
  let ?ident' = "if ?i < length alphabet then ident @ [alphabet ! ?i] else ident"
  have sub: "set ?ident' \<subseteq> set alphabet"
    using 2(4) by auto
  have len: "length ?ident' \<le> sz"
    using 2(3) by auto
  show ?case
  proof (cases "sz \<le> length ?ident'")
    case True
    then have "generated = ?ident'"
      using 2(2) by (simp add: Let_def)
    then show ?thesis using True len sub by simp
  next
    case False
    then have "customAlphabet_loop sz bytes ?ident' = Some generated"
      using 2(2) by (simp add: Let_def)
    moreover have "length ?ident' < sz" using False by simp
    ultimately show ?thesis
      using 2(1) [OF refl refl False] sub by blast
  qed
qed

text \<open>What holds of every generated code: six characters of the alphabet.\<close>

lemma generateVerificationCode_shape:
  "generateVerificationCode randomBytes = Some generated \<Longrightarrow>
   length generated = 6 \<and> set generated \<subseteq> set alphabet"
  unfolding generateVerificationCode_def
  using customAlphabet_loop_shape [of 6 randomBytes "[]" generated] by simp

text \<open>Six random bytes that index the alphabet are enough for a code to be returned.\<close>

lemma generateVerificationCode_returns:
  "length randomBytes = 6 \<Longrightarrow> list_all (\<lambda>b. unat (b AND 63) < 36) randomBytes \<Longrightarrow>
   \<exists>generated. generateVerificationCode randomBytes = Some generated"
  by (auto simp: generateVerificationCode_def Let_def alphabet_def length_Suc_conv
      numeral_eq_Suc)

text \<open>
  C7 on the code. With six random bytes that all select the letter A the generator
  returns \<open>AAAAAA\<close>, a code without a digit. The validator of the webhook path rejects
  that code and the extractor never finds it in a message, so it cannot be verified.
\<close>

theorem generateVerificationCode_letters_only:
  "generateVerificationCode [0, 0, 0, 0, 0, 0] = Some ''AAAAAA''
   \<and> \<not> list_ex isDigit ''AAAAAA''
   \<and> validateVerificationCode ''AAAAAA''
       = Inl ''Verification code must contain both letters and numbers''
   \<and> extractVerificationCode ''AAAAAA'' = None"
  by code_simp

theorem generateVerificationCode_letters_only_witness:
  "validateVerificationCode (the (generateVerificationCode [0, 0, 0, 0, 0, 0]))
     = Inl ''Verification code must contain both letters and numbers''"
  using generateVerificationCode_letters_only by simp

subsection \<open>Signed session tokens\<close>

lemma seconds_before: "(now div 1000 < e) = (now < e * (1000::nat))"
  by (simp add: div_less_iff_less_mult)

lemma verify_mint:
  "verifySecureToken config hs now (generateSecureToken config hs t0 data) =
     (if now < expiresAt (generateSecureToken config hs t0 data)
      then Some (data\<lparr>verified := True\<rparr>) else None)"
proof -
  let ?e = "t0 div 1000 + expiresIn config"
  have e: "expiresAt (generateSecureToken config hs t0 data) = ?e * 1000"
    by (simp add: generateSecureToken_def generateAccessToken_def jwt_sign_def expiresAt_def
        Let_def JWTPayload.defs JWTClaims.defs)
  have v: "verifySecureToken config hs now (generateSecureToken config hs t0 data) =
     (if now div 1000 < ?e then Some (data\<lparr>verified := True\<rparr>) else None)"
    by (simp add: verifySecureToken_def generateSecureToken_def verifyAccessToken_def
        generateAccessToken_def jwt_verify_def jwt_sign_def Let_def
        JWTPayload.defs JWTClaims.defs not_le)
  show ?thesis
    unfolding e v seconds_before ..
qed

lemma example_expiresAt:
  "expiresAt (generateSecureToken example_config hs 0 data) = 3600000"
  by (simp add: generateSecureToken_def generateAccessToken_def jwt_sign_def expiresAt_def
      Let_def JWTPayload.defs JWTClaims.defs example_config_def)

text \<open>
  C1, as the code has it. A token minted from session data verifies, at every time
  strictly before its \<open>expiresAt\<close>, to the same code, name and phone with
  \<open>verified = true\<close> (the minted data itself when it was minted with
  \<open>verified = true\<close>), and at or after \<open>expiresAt\<close> it is invalid.
\<close>

theorem verify_mint_round_trip:
  "(now < expiresAt (generateSecureToken config hs t0 data) \<longrightarrow>
      verifySecureToken config hs now (generateSecureToken config hs t0 data)
        = Some (data\<lparr>verified := True\<rparr>))
   \<and> (expiresAt (generateSecureToken config hs t0 data) \<le> now \<longrightarrow>
      verifySecureToken config hs now (generateSecureToken config hs t0 data) = None)
   \<and> (verified data \<longrightarrow> data\<lparr>verified := True\<rparr> = data)"
  by (simp add: verify_mint)

theorem verify_mint_round_trip_witness:
  "verifySecureToken example_config example_jwt_hmac 3599999
      (generateSecureToken example_config example_jwt_hmac 0 (example_session True))
     = Some (example_session True)
   \<and> verifySecureToken example_config example_jwt_hmac 3600000
      (generateSecureToken example_config example_jwt_hmac 0 (example_session True)) = None"
  using verify_mint_round_trip
      [of 3599999 example_config example_jwt_hmac 0 "example_session True"]
    verify_mint_round_trip
      [of 3600000 example_config example_jwt_hmac 0 "example_session True"]
  by (simp add: example_expiresAt example_session_def)

text \<open>
  C1 as the specification words it fails: session data minted with
  \<open>verified = false\<close> does not come back as it was.
\<close>

theorem verify_mint_unverified_counterexample:
  "verifySecureToken example_config example_jwt_hmac 1000
      (generateSecureToken example_config example_jwt_hmac 0 (example_session False))
     \<noteq> Some (example_session False)"
  by (simp add: verify_mint example_expiresAt example_session_def)

text \<open>
  C10. Whatever token \<open>verifySecureToken\<close> accepts, the session data it returns has
  \<open>verified = true\<close>. The role in a minted payload is always \<open>user\<close>, the minted token
  does not depend on the \<open>verified\<close> flag of the session data, and the token of the
  reset flow, minted with \<open>verified = false\<close>, verifies to \<open>verified = true\<close> until it
  expires.
\<close>

theorem verifySecureToken_always_verified:
  "(verifySecureToken config hs now token = Some s \<longrightarrow> verified s)
   \<and> role (claims (generateSecureToken config hs t0 data)) = ''user''
   \<and> generateSecureToken config hs t0 (data\<lparr>verified := b\<rparr>)
       = generateSecureToken config hs t0 data
   \<and> (now < expiresAt (resetPassword_token config hs t0 c n p) \<longrightarrow>
        verifySecureToken config hs now (resetPassword_token config hs t0 c n p)
          = Some \<lparr>code = c, name = n, whatsappNumber = p, verified = True\<rparr>)"
proof -
  have "verifySecureToken config hs now token = Some s \<longrightarrow> verified s"
    by (auto simp: verifySecureToken_def split: option.splits)
  moreover have "role (claims (generateSecureToken config hs t0 data)) = ''user''"
    by (simp add: generateSecureToken_def generateAccessToken_def jwt_sign_def Let_def
        JWTPayload.defs JWTClaims.defs)
  moreover have "generateSecureToken config hs t0 (data\<lparr>verified := b\<rparr>)
       = generateSecureToken config hs t0 data"
    by (simp add: generateSecureToken_def)
  moreover have "now < expiresAt (resetPassword_token config hs t0 c n p) \<longrightarrow>
        verifySecureToken config hs now (resetPassword_token config hs t0 c n p)
          = Some \<lparr>code = c, name = n, whatsappNumber = p, verified = True\<rparr>"
    by (simp add: resetPassword_token_def verify_mint)
  ultimately show ?thesis by blast
qed

theorem verifySecureToken_always_verified_witness:
  "verifySecureToken example_config example_jwt_hmac 1000
      (resetPassword_token example_config example_jwt_hmac 0 ''X7K2M9'' ''Ann'' ''15551234567'')
     = Some (example_session True)
   \<and> verified (example_session True)"
proof -
  let ?token =
    "resetPassword_token example_config example_jwt_hmac 0 ''X7K2M9'' ''Ann'' ''15551234567''"
  have v: "verifySecureToken example_config example_jwt_hmac 1000 ?token
           = Some (example_session True)"
    using verifySecureToken_always_verified
      [of example_config example_jwt_hmac 1000 _ _ 0 _ _ "''X7K2M9''" "''Ann''" "''15551234567''"]
    by (simp add: resetPassword_token_def example_expiresAt example_session_def)
  then show ?thesis
    using verifySecureToken_always_verified
      [of example_config example_jwt_hmac 1000 ?token "example_session True"]
    by simp
qed

subsection \<open>Rate limiting\<close>

lemma maxRequests_pos: "0 < maxRequests (RATE_LIMITS limitType)"
  by (cases limitType) simp_all

text \<open>Inside the window the entry of the key keeps its reset time and counts up to the limit.\<close>

lemma checkRateLimit_in_window:
  assumes "store (keyGenerator limitType request) = Some entry"
    and "now \<le> resetTime entry" and "cleanupNow \<le> resetTime entry"
  shows "snd (checkRateLimit limitType request now cleanupNow store) (keyGenerator limitType request)
         = Some (if count entry \<ge> maxRequests (RATE_LIMITS limitType) then entry
                 else entry\<lparr>count := count entry + 1, lastRequest := now\<rparr>)"
    and "allowed (fst (checkRateLimit limitType request now cleanupNow store))
         = (count entry < maxRequests (RATE_LIMITS limitType))"
    and "count entry \<ge> maxRequests (RATE_LIMITS limitType) \<Longrightarrow>
         retryAfter (fst (checkRateLimit limitType request now cleanupNow store))
         = Some (ceil_seconds (resetTime entry - now))"
  using assms
  by (auto simp: checkRateLimit_def cleanupExpiredEntries_def Let_def)

lemma checkRateLimit_fresh:
  assumes "store (keyGenerator limitType request) = None
           \<or> (\<exists>entry. store (keyGenerator limitType request) = Some entry
                  \<and> (resetTime entry < now \<or> resetTime entry < cleanupNow))"
  shows "snd (checkRateLimit limitType request now cleanupNow store) (keyGenerator limitType request)
         = Some \<lparr>count = 1, resetTime = now + windowMs (RATE_LIMITS limitType), lastRequest = now\<rparr>"
    and "allowed (fst (checkRateLimit limitType request now cleanupNow store))"
  using assms
  by (auto simp: checkRateLimit_def cleanupExpiredEntries_def Let_def)

lemma checkRateLimit_calls_in_window:
  assumes "store (keyGenerator limitType request) = Some entry"
    and "clocks_until (resetTime entry) clocks"
    and "count entry \<le> maxRequests (RATE_LIMITS limitType)"
  shows "\<exists>entry'. checkRateLimit_calls limitType request clocks store
                     (keyGenerator limitType request) = Some entry'
           \<and> resetTime entry' = resetTime entry
           \<and> count entry' = min (count entry + length clocks) (maxRequests (RATE_LIMITS limitType))"
  using assms
proof (induction clocks arbitrary: store entry)
  case Nil
  then show ?case by simp
next
  case (Cons clock clocks)
  obtain now cleanupNow where clock: "clock = (now, cleanupNow)"
    by (cases clock)
  let ?N = "maxRequests (RATE_LIMITS limitType)"
  let ?entry = "if count entry \<ge> ?N then entry
                else entry\<lparr>count := count entry + 1, lastRequest := now\<rparr>"
  let ?store = "snd (checkRateLimit limitType request now cleanupNow store)"
  have inw: "now \<le> resetTime entry" "cleanupNow \<le> resetTime entry"
    and rest: "clocks_until (resetTime entry) clocks"
    using Cons.prems(2) by (simp_all add: clocks_until_def clock)
  have st: "?store (keyGenerator limitType request) = Some ?entry"
    using checkRateLimit_in_window(1) [of store limitType request entry now cleanupNow]
      Cons.prems(1) inw by blast
  have rt: "resetTime ?entry = resetTime entry" by simp
  have le: "count ?entry \<le> ?N" using Cons.prems(3) by simp
  have "clocks_until (resetTime ?entry) clocks" using rest by simp
  with Cons.IH [of ?store ?entry] st le
  obtain entry' where e: "checkRateLimit_calls limitType request clocks ?store
                     (keyGenerator limitType request) = Some entry'"
    "resetTime entry' = resetTime ?entry"
    "count entry' = min (count ?entry + length clocks) ?N"
    by blast
  have "count entry' = min (count entry + length (clock # clocks)) ?N"
    using e(3) Cons.prems(3) by (auto simp: min_def)
  then show ?case
    using e(1,2) rt by (simp add: clock)
qed

text \<open>The entry of the key after a first call on the empty store and further calls in its window.\<close>

lemma checkRateLimit_calls_from_empty:
  assumes "clocks_until (t1 + windowMs (RATE_LIMITS limitType)) clocks"
  shows "\<exists>entry. checkRateLimit_calls limitType request ((t1, c1) # clocks) empty_rateLimitStore
                    (keyGenerator limitType request) = Some entry
           \<and> resetTime entry = t1 + windowMs (RATE_LIMITS limitType)
           \<and> count entry = min (Suc (length clocks)) (maxRequests (RATE_LIMITS limitType))"
proof -
  let ?first = "\<lparr>count = 1, resetTime = t1 + windowMs (RATE_LIMITS limitType), lastRequest = t1\<rparr>"
  let ?store = "snd (checkRateLimit limitType request t1 c1 empty_rateLimitStore)"
  have st: "?store (keyGenerator limitType request) = Some ?first"
    using checkRateLimit_fresh(1) [of empty_rateLimitStore limitType request t1 c1]
    by (simp add: empty_rateLimitStore_def)
  have c: "clocks_until (resetTime ?first) clocks" using assms by simp
  have le: "count ?first \<le> maxRequests (RATE_LIMITS limitType)"
    using maxRequests_pos [of limitType] by simp
  show ?thesis
    using checkRateLimit_calls_in_window [of ?store limitType request ?first clocks] st c le
    by simp
qed

lemma ceil_seconds_pos: "0 < ms \<Longrightarrow> 0 < ceil_seconds ms"
  by (simp add: ceil_seconds_def)

text \<open>
  C4, as the code has it. Take any category, with \<open>N\<close> its \<open>maxRequests\<close> and \<open>W\<close> its
  \<open>windowMs\<close>, and any request. A call reads the clock twice: \<open>now\<close> in
  \<open>checkRateLimit\<close>, then \<open>cleanupNow\<close> in \<open>cleanupExpiredEntries\<close>. The first call, on
  the empty store with \<open>now = t1\<close>, is allowed and opens a window that ends at
  \<open>t1 + W\<close>. A call is inside the window when both of its readings are at most
  \<open>t1 + W\<close>. After the first call and the calls \<open>clocks\<close> inside the window, a further
  call inside the window is allowed exactly when fewer than \<open>N\<close> calls came before it;
  when it is denied the entry of the key stays as it is, with count \<open>N\<close>, and
  \<open>retryAfter\<close> is the time from \<open>now\<close> to the end of the window in seconds, rounded
  up, which is positive whenever \<open>now\<close> is strictly before \<open>t1 + W\<close>. A call with one
  of its readings after \<open>t1 + W\<close> (also the call whose first reading is still at most
  \<open>t1 + W\<close> while its second is already later) is allowed and leaves the entry with
  count 1 and a window that ends at \<open>now + W\<close>.
\<close>

theorem checkRateLimit_window:
  assumes "clocks_until (t1 + windowMs (RATE_LIMITS limitType)) clocks"
    and "store = checkRateLimit_calls limitType request ((t1, c1) # clocks) empty_rateLimitStore"
    and "result = checkRateLimit limitType request now cleanupNow store"
    and "key = keyGenerator limitType request"
    and "N = maxRequests (RATE_LIMITS limitType)"
    and "W = windowMs (RATE_LIMITS limitType)"
  shows "allowed (fst (checkRateLimit limitType request t1 c1 empty_rateLimitStore))
    \<and> (now \<le> t1 + W \<and> cleanupNow \<le> t1 + W \<longrightarrow>
         allowed (fst result) = (Suc (length clocks) < N))
    \<and> (now \<le> t1 + W \<and> cleanupNow \<le> t1 + W \<and> N \<le> Suc (length clocks) \<longrightarrow>
         retryAfter (fst result) = Some (ceil_seconds (t1 + W - now))
         \<and> (now < t1 + W \<longrightarrow> 0 < ceil_seconds (t1 + W - now))
         \<and> snd result key = store key
         \<and> map_option count (store key) = Some N)
    \<and> (t1 + W < now \<or> t1 + W < cleanupNow \<longrightarrow>
         allowed (fst result)
         \<and> snd result key = Some \<lparr>count = 1, resetTime = now + W, lastRequest = now\<rparr>)"
proof -
  obtain entry where e: "store key = Some entry" "resetTime entry = t1 + W"
    "count entry = min (Suc (length clocks)) N"
    using checkRateLimit_calls_from_empty [OF assms(1), of request c1] assms(2,4,5,6)
    by blast
  have first: "allowed (fst (checkRateLimit limitType request t1 c1 empty_rateLimitStore))"
    using checkRateLimit_fresh(2) [of empty_rateLimitStore limitType request t1 c1]
    by (simp add: empty_rateLimitStore_def)
  have sk: "store (keyGenerator limitType request) = Some entry"
    using e(1) assms(4) by simp
  have inside: "allowed (fst result) = (Suc (length clocks) < N)"
    if "now \<le> t1 + W" "cleanupNow \<le> t1 + W"
  proof -
    have "allowed (fst result) = (count entry < N)"
      unfolding assms(3,5)
      using checkRateLimit_in_window(2) [of store limitType request entry now cleanupNow]
        sk that e(2) by simp
    then show ?thesis using e(3) by (auto simp: min_def)
  qed
  have denied: "retryAfter (fst result) = Some (ceil_seconds (t1 + W - now))
         \<and> (now < t1 + W \<longrightarrow> 0 < ceil_seconds (t1 + W - now))
         \<and> snd result key = store key
         \<and> map_option count (store key) = Some N"
    if "now \<le> t1 + W" "cleanupNow \<le> t1 + W" "N \<le> Suc (length clocks)"
  proof -
    have inw: "now \<le> resetTime entry" "cleanupNow \<le> resetTime entry"
      using that e(2) by simp_all
    have full: "count entry \<ge> maxRequests (RATE_LIMITS limitType)"
      using e(3) that(3) assms(5) by simp
    have "retryAfter (fst result) = Some (ceil_seconds (resetTime entry - now))"
      unfolding assms(3)
      using checkRateLimit_in_window(3) [of store limitType request entry now cleanupNow]
        sk inw full by blast
    moreover have "snd result key = store key"
      unfolding assms(3,4)
      using checkRateLimit_in_window(1) [of store limitType request entry now cleanupNow]
        sk inw full by simp
    moreover have "map_option count (store key) = Some N"
      using e(1,3) that(3) by simp
    ultimately show ?thesis
      using e(2) by (simp add: ceil_seconds_pos)
  qed
  have rollover: "allowed (fst result)
         \<and> snd result key = Some \<lparr>count = 1, resetTime = now + W, lastRequest = now\<rparr>"
    if "t1 + W < now \<or> t1 + W < cleanupNow"
  proof -
    have ex: "store (keyGenerator limitType request) = None
           \<or> (\<exists>entry. store (keyGenerator limitType request) = Some entry
                  \<and> (resetTime entry < now \<or> resetTime entry < cleanupNow))"
      using sk e(2) that by simp
    show ?thesis
      unfolding assms(3,4,6)
      using checkRateLimit_fresh [of store limitType request now cleanupNow] ex by simp
  qed
  show ?thesis
    using first inside denied rollover by blast
qed

theorem checkRateLimit_window_witness:
  "clocks_until (0 + windowMs (RATE_LIMITS passwordReset)) [(1000, 1000)]
   \<and> \<not> allowed (fst (checkRateLimit passwordReset example_request 5000 5000
         (checkRateLimit_calls passwordReset example_request [(0, 0), (1000, 1000)]
            empty_rateLimitStore)))
   \<and> retryAfter (fst (checkRateLimit passwordReset example_request 5000 5000
         (checkRateLimit_calls passwordReset example_request [(0, 0), (1000, 1000)]
            empty_rateLimitStore))) = Some 3595
   \<and> allowed (fst (checkRateLimit passwordReset example_request 3600001 3600001
         (checkRateLimit_calls passwordReset example_request [(0, 0), (1000, 1000)]
            empty_rateLimitStore)))
   \<and> allowed (fst (checkRateLimit passwordReset example_request 3600000 3600001
         (checkRateLimit_calls passwordReset example_request [(0, 0), (1000, 1000)]
            empty_rateLimitStore)))"
proof -
  have c: "clocks_until (0 + windowMs (RATE_LIMITS passwordReset)) [(1000, 1000)]"
    by (simp add: clocks_until_def)
  have N: "2 = maxRequests (RATE_LIMITS passwordReset)"
    and W: "3600000 = windowMs (RATE_LIMITS passwordReset)"
    by simp_all
  show ?thesis
    using c
      checkRateLimit_window [OF c refl refl refl N W, of example_request 0 5000 5000]
      checkRateLimit_window [OF c refl refl refl N W, of example_request 0 3600001 3600001]
      checkRateLimit_window [OF c refl refl refl N W, of example_request 0 3600000 3600001]
    by (simp add: ceil_seconds_def)
qed

text \<open>
  C4 as the specification words it fails at the last instant of the window: there the
  call is still denied, and its \<open>retryAfter\<close> is 0.
\<close>

theorem checkRateLimit_retryAfter_zero_counterexample:
  "\<not> allowed (fst (checkRateLimit passwordReset example_request 3600000 3600000
         (checkRateLimit_calls passwordReset example_request [(0, 0), (1000, 1000)]
            empty_rateLimitStore)))
   \<and> retryAfter (fst (checkRateLimit passwordReset example_request 3600000 3600000
         (checkRateLimit_calls passwordReset example_request [(0, 0), (1000, 1000)]
            empty_rateLimitStore))) = Some 0"
proof -
  let ?store = "checkRateLimit_calls passwordReset example_request [(0, 0), (1000, 1000)]
            empty_rateLimitStore"
  have "clocks_until (0 + windowMs (RATE_LIMITS passwordReset)) [(1000, 1000)]"
    by (simp add: clocks_until_def)
  then obtain entry where e: "?store (keyGenerator passwordReset example_request) = Some entry"
    "resetTime entry = 3600000" "count entry = 2"
    using checkRateLimit_calls_from_empty [of 0 passwordReset "[(1000, 1000)]" example_request 0]
    by auto
  show ?thesis
    using checkRateLimit_in_window(2,3)
      [of ?store passwordReset example_request entry 3600000 3600000] e
    by (simp add: ceil_seconds_def)
qed

subsection \<open>Webhook deduplication\<close>























subsection \<open>Setting the password\<close>

lemma single_QueryData: "single rows = QueryData r \<Longrightarrow> rows = [r]"
  by (auto simp: single_def split: list.splits)

lemma generateSecureToken_userId:
  "userId (claims (generateSecureToken config hs t0 data)) = code data"
  by (simp add: generateSecureToken_def generateAccessToken_def jwt_sign_def Let_def
      JWTPayload.defs JWTClaims.defs)

lemma error_status:
  "status (createSecureErrorResponse e n) = n"
  "status handleCSRFError = 403" "status handleValidationError = 400"
  "status createGenericErrorResponse = 500" "status (handleDatabaseError c) = 500"
  by (simp_all add: createSecureErrorResponse_def handleCSRFError_def handleValidationError_def
      createGenericErrorResponse_def handleDatabaseError_def)

text \<open>
  Every successful call mints the new token for the verification code itself: its
  subject is the code of the request, the code of a verified record of the store.
\<close>

lemma set_password_POST_subject:
  assumes "set_password_POST env db request json = (db', response)"
    and "status response = 200"
  shows "\<exists>b token r. json = Some b
           \<and> setCookie response = Some \<lparr>cookie_name = ''auth_token'',
                                          cookie_value = TokenCookie token, max_age = 3600\<rparr>
           \<and> userId (claims token) = sp_sanitize env (body_code b)
           \<and> r \<in> set (verification_codes db) \<and> vc_verified r
           \<and> vc_code r = userId (claims token)"
proof -
  from assms have csrf: "validateDoubleSubmitCSRF request"
    and auth: "truthy (cookies_get request ''auth_token'')"
    by (auto simp: set_password_POST_def Let_def error_status split: if_splits)
  from assms csrf auth obtain b where
    json: "json = Some b"
    by (auto simp: set_password_POST_def Let_def error_status split: option.splits)
  let ?c = "sp_sanitize env (body_code b)"
  let ?rows = "filter (\<lambda>r. vc_code r = ?c \<and> vc_verified r \<and> expires_at r > sp_now env)
                 (verification_codes db)"
  from assms csrf auth json obtain r where
    r: "single ?rows = QueryData r" and nf: "\<not> sp_lookupFails env"
    by (auto simp: set_password_POST_def Let_def error_status
        split: option.splits if_splits QueryResult.splits)
  have "r \<in> set ?rows"
    using single_QueryData [OF r] by simp
  then have rin: "r \<in> set (verification_codes db)" "vc_verified r" "vc_code r = ?c"
    by simp_all
  let ?token = "generateSecureToken (sp_config env) (sp_hmac env) (sp_now env)
                  \<lparr>code = vc_code r, name = vc_name r, whatsappNumber = whatsapp_number r,
                   verified = True\<rparr>"
  have "setCookie response = Some \<lparr>cookie_name = ''auth_token'',
                                   cookie_value = TokenCookie ?token, max_age = 3600\<rparr>"
    using assms csrf auth json r nf
    by (auto simp: set_password_POST_def Let_def error_status passwordSetResponse_def
        split: option.splits if_splits QueryResult.splits)
  moreover have "userId (claims ?token) = ?c"
    using rin(3) by (simp add: generateSecureToken_userId)
  ultimately show ?thesis
    using json rin by (metis (no_types, lifting))
qed

text \<open>The password-login handler, by contrast, mints for 128 random hexadecimal digits.\<close>

lemma length_hexEncode: "length (hexEncode bs) = 2 * length bs"
  by (induction bs) simp_all

lemma authPassword_token_subject:
  "userId (claims (authPassword_token config hs now randomBytes user)) = hexEncode randomBytes"
  "length randomBytes = 64 \<Longrightarrow>
   length (userId (claims (authPassword_token config hs now randomBytes user))) = 128"
  by (simp_all add: authPassword_token_def Let_def generateSecureToken_userId length_hexEncode)

text \<open>
  C6 on the code. The client that holds the session of the verified code \<open>X7K2M9\<close>
  sets the password \<open>abc123\<close>. The call succeeds and sets the \<open>auth_token\<close> cookie to a
  token whose subject is \<open>X7K2M9\<close>, the verification code of the record, six
  characters long: the token minted for the same session data, not one with a random
  session identifier.
\<close>

theorem set_password_POST_keeps_code:
  "snd (set_password_POST example_sp_env example_sp_database example_sp_request
          (Some example_sp_body))
     = \<lparr>status = 200, body = PasswordSetBody ''user-1'' ''Ann'' ''15551234567'',
        setCookie = Some \<lparr>cookie_name = ''auth_token'',
                          cookie_value = TokenCookie
                            (generateSecureToken example_config example_jwt_hmac 1000
                               (example_session True)),
                          max_age = 3600\<rparr>\<rparr>
   \<and> userId (claims (generateSecureToken example_config example_jwt_hmac 1000
                        (example_session True))) = ''X7K2M9''
   \<and> map vc_code (verification_codes example_sp_database) = [''X7K2M9'']"
proof -
  have csrf: "validateDoubleSubmitCSRF example_sp_request"
    by (simp add: validateDoubleSubmitCSRF_def example_sp_request_def headers_get_def
        cookies_get_def timingSafeEqual_iff)
  have cookie: "cookies_get example_sp_request ''auth_token'' = Some ''session-cookie''"
    by (simp add: example_sp_request_def cookies_get_def)
  have session: "verifySecureToken example_config example_jwt_hmac 1000
                   (generateSecureToken example_config example_jwt_hmac 0 (example_session True))
                 = Some (example_session True)"
    by (simp add: verify_mint example_expiresAt example_session_def)
  have pw: "pw_isValid (validatePassword ''abc123'')"
    by code_simp
  have es: "\<lparr>code = ''X7K2M9'', name = ''Ann'', whatsappNumber = ''15551234567'',
             verified = True\<rparr> = example_session True"
    and ec: "code (example_session True) = ''X7K2M9''"
    by (simp_all add: example_session_def)
  have post: "snd (set_password_POST example_sp_env example_sp_database example_sp_request
          (Some example_sp_body))
     = passwordSetResponse ''user-1'' (example_row\<lparr>vc_verified := True, verified_at := Some 500\<rparr>)
         (generateSecureToken example_config example_jwt_hmac 1000 (example_session True))"
    by (simp add: set_password_POST_def Let_def csrf cookie example_sp_env_def session
        example_sp_body_def pw example_sp_database_def example_row_def single_def
        es ec)
  show ?thesis
    unfolding post
    by (simp add: passwordSetResponse_def example_row_def generateSecureToken_userId
        ec example_sp_database_def)
qed

theorem set_password_POST_keeps_code_witness:
  "status (snd (set_password_POST example_sp_env example_sp_database example_sp_request
                  (Some example_sp_body))) = 200"
  using set_password_POST_keeps_code by simp

subsection \<open>CSRF token issuance\<close>

text \<open>The handler of route.ts never reads the cookies: its answer is the same without them.\<close>

lemma csrf_token_GET_ignores_cookies:
  "csrf_token_GET randomValues (request\<lparr>cookies := cs\<rparr>) = csrf_token_GET randomValues request"
  by (simp add: csrf_token_GET_def headers_get_def)

lemma csrf_token_GET_mints:
  "truthy (headers_get request ''user-agent'') \<Longrightarrow> randomValues \<noteq> [] \<Longrightarrow>
   csrf_token_GET randomValues request =
     \<lparr>status = 200,
      body = CsrfTokenBody (hexEncode randomValues) ''CSRF token generated successfully'',
      setCookie = Some \<lparr>cookie_name = ''csrf-token'',
                        cookie_value = TextCookie (hexEncode randomValues), max_age = 600\<rparr>\<rparr>"
  by (cases randomValues)
    (simp_all add: csrf_token_GET_def generateCSRFToken_def setCSRFCookie_def Let_def)

text \<open>The variant of part 005 answers with the cookie's value and sets no cookie.\<close>

lemma csrf_token_GET_part_005_reuses:
  "truthy (headers_get request ''user-agent'') \<Longrightarrow>
   cookies_get request ''csrf-token'' = Some existing \<Longrightarrow> existing \<noteq> [] \<Longrightarrow>
   csrf_token_GET_part_005 randomValues request =
     \<lparr>status = 200, body = CsrfTokenBody existing ''CSRF token retrieved successfully'',
      setCookie = None\<rparr>"
  by (simp add: csrf_token_GET_part_005_def Let_def)

text \<open>
  C9 on the code. A client that holds the cookie value \<open>5f2a9c\<close> calls the issuance
  handler of route.ts, which draws 64 random bytes, here all \<open>0xAB\<close>: the answer and
  the cookie it sets carry the freshly minted token, 64 times \<open>ab\<close>, not the value the
  client holds. The variant of part 005 answers the same request with the value the
  client holds.
\<close>

theorem csrf_token_GET_mints_anew:
  "csrf_token_GET (replicate 64 0xAB) example_csrf_request =
     \<lparr>status = 200,
      body = CsrfTokenBody (concat (replicate 64 ''ab'')) ''CSRF token generated successfully'',
      setCookie = Some \<lparr>cookie_name = ''csrf-token'',
                        cookie_value = TextCookie (concat (replicate 64 ''ab'')),
                        max_age = 600\<rparr>\<rparr>
   \<and> cookies_get example_csrf_request ''csrf-token'' = Some ''5f2a9c''
   \<and> concat (replicate 64 ''ab'') \<noteq> ''5f2a9c''
   \<and> csrf_token_GET_part_005 (replicate 64 0xAB) example_csrf_request =
     \<lparr>status = 200, body = CsrfTokenBody ''5f2a9c'' ''CSRF token retrieved successfully'',
      setCookie = None\<rparr>"
proof -
  have ua: "truthy (headers_get example_csrf_request ''user-agent'')"
    by (simp add: example_csrf_request_def headers_get_def)
  have ck: "cookies_get example_csrf_request ''csrf-token'' = Some ''5f2a9c''"
    by (simp add: example_csrf_request_def cookies_get_def)
  have d: "hexDigit 10 = CHR ''a''" "hexDigit 11 = CHR ''b''"
    by code_simp+
  have hex: "hexEncode (replicate n 0xAB) = concat (replicate n ''ab'')" for n
    by (induction n) (simp_all add: d)
  have ne: "replicate 64 (0xAB :: byte) \<noteq> []"
    by simp
  have differ: "concat (replicate 64 ''ab'') \<noteq> ''5f2a9c''"
    by (simp add: numeral_eq_Suc)
  show ?thesis
    using csrf_token_GET_mints [OF ua ne]
      csrf_token_GET_part_005_reuses [OF ua ck, of "replicate 64 0xAB"] ck hex [of 64] differ
    by simp
qed

theorem csrf_token_GET_mints_anew_witness:
  "body (csrf_token_GET (replicate 64 0xAB) example_csrf_request)
     = CsrfTokenBody (concat (replicate 64 ''ab'')) ''CSRF token generated successfully''"
  using csrf_token_GET_mints_anew by simp

end
